theory Spec2Isabelle
  imports Complex_Main "HOL-Library.Word"
begin

section \<open>The plane geometry builder of xeokit-convert\<close>

text \<open>
  This theory embeds \<^verbatim>\<open>buildPlaneGeometry\<close> of
  \<^verbatim>\<open>src/geometryBuilders/buildPlaneGeometry.js\<close> and verifies its specification.

  Conventions of the embedding:
  \<^item> the fields of the configuration are as the doc comment of the function types them:
    the sizes and segment counts are numbers, \<^verbatim>\<open>center\<close> is an array of three numbers.
    A number is a finite value, modelled as an exact rational (\<^typ>\<open>rat\<close>): \<^verbatim>\<open>NaN\<close> and
    the infinities are outside the model, and the rounding of IEEE doubles and of the
    store into a \<^verbatim>\<open>Float32Array\<close> is not modelled. Loop counters, array lengths and
    vertex indices are natural numbers (they are integers below \<open>2^53\<close> whenever the
    arrays can be allocated, so the source computes them exactly);
  \<^item> an absent field of the configuration (\<^verbatim>\<open>undefined\<close>) is \<^term>\<open>None\<close>, and so is an
    absent configuration;
  \<^item> \<^verbatim>\<open>console.error\<close> appends its message to a log that is returned beside the result;
  \<^item> a typed array is a list of its element type, of fixed length: a store at an index
    beyond the length is ignored, as \<open>xs[i := v]\<close> is. The elements of \<^verbatim>\<open>Uint16Array\<close> and
    \<^verbatim>\<open>Uint32Array\<close> are machine words, and a store converts modulo the width;
  \<^item> the constructor of a typed array throws \<^verbatim>\<open>RangeError\<close> when the buffer cannot be
    created. The host is taken to allocate every buffer of at most \<open>mem\<close> bytes, a
    parameter of the model, and no larger one; ECMAScript itself refuses every byte
    length beyond \<open>2^53 - 1\<close>. On the configurations of this model it is the only throw
    the function can reach.
\<close>

subsection \<open>Data\<close>

record config =
  center :: "(rat \<times> rat \<times> rat) option"
  xSize :: "rat option"
  zSize :: "rat option"
  xSegments :: "rat option"
  zSegments :: "rat option"

datatype error = RangeError

datatype index_array = Uint16Array "16 word list" | Uint32Array "32 word list"

record geometry =
  primitiveType :: string
  positions :: "rat list"
  normals :: "rat list"
  uv :: "rat list"
  indices :: index_array

text \<open>The values held by an index array, read as unsigned integers.\<close>

fun index_values :: "index_array \<Rightarrow> nat list" where
  "index_values (Uint16Array ws) = map unat ws"
| "index_values (Uint32Array ws) = map unat ws"

subsection \<open>Input normalisation (lines 56 to 86)\<close>

text \<open>The default parameter \<^verbatim>\<open>cfg = {}\<close>: an absent argument is the empty object.\<close>

definition emptyConfig :: config where
  "emptyConfig = \<lparr>center = None, xSize = None, zSize = None, xSegments = None, zSegments = None\<rparr>"

definition cfgOrDefault :: "config option \<Rightarrow> config" where
  "cfgOrDefault arg = (case arg of None \<Rightarrow> emptyConfig | Some cfg \<Rightarrow> cfg)"

text \<open>\<^verbatim>\<open>v || d\<close> on a number or \<^verbatim>\<open>undefined\<close>: \<^verbatim>\<open>undefined\<close> and \<open>0\<close> are falsy.\<close>

definition orElse :: "rat option \<Rightarrow> rat \<Rightarrow> rat" where
  "orElse v d = (case v of None \<Rightarrow> d | Some x \<Rightarrow> if x = 0 then d else x)"

text \<open>
  \<^verbatim>\<open>if (v < 0) { console.error(msg); v *= -1; }\<close>: the messages logged and the new value.
\<close>

definition invertNegative :: "string \<Rightarrow> rat \<Rightarrow> string list \<times> rat" where
  "invertNegative msg v = (if v < 0 then ([msg], v * (- 1)) else ([], v))"

text \<open>\<^verbatim>\<open>if (v < 1) { v = 1; }\<close>\<close>

definition atLeastOne :: "rat \<Rightarrow> rat" where
  "atLeastOne v = (if v < 1 then 1 else v)"

definition msg_xSize :: string where
  "msg_xSize = ''negative xSize not allowed - will invert''"

definition msg_zSize :: string where
  "msg_zSize = ''negative zSize not allowed - will invert''"

definition msg_xSegments :: string where
  "msg_xSegments = ''negative xSegments not allowed - will invert''"

definition msg_zSegments :: string where
  "msg_zSegments = ''negative zSegments not allowed - will invert''"

text \<open>Lines 58 to 62.\<close>

definition read_xSize :: "config \<Rightarrow> string list \<times> rat" where
  "read_xSize cfg = invertNegative msg_xSize (orElse (xSize cfg) 1)"

text \<open>Lines 64 to 68.\<close>

definition read_zSize :: "config \<Rightarrow> string list \<times> rat" where
  "read_zSize cfg = invertNegative msg_zSize (orElse (zSize cfg) 1)"

text \<open>Lines 70 to 77.\<close>

definition read_xSegments :: "config \<Rightarrow> string list \<times> rat" where
  "read_xSegments cfg =
     (let (log, v) = invertNegative msg_xSegments (orElse (xSegments cfg) 1)
      in (log, atLeastOne v))"

text \<open>Lines 79 to 86: the source reads \<^verbatim>\<open>cfg.xSegments\<close> here, not \<^verbatim>\<open>cfg.zSegments\<close>.\<close>

definition read_zSegments :: "config \<Rightarrow> string list \<times> rat" where
  "read_zSegments cfg =
     (let (log, v) = invertNegative msg_zSegments (orElse (xSegments cfg) 1)
      in (log, atLeastOne v))"

subsection \<open>The local constants (lines 88 to 103)\<close>

record locals =
  centerX :: rat
  centerY :: rat
  centerZ :: rat
  halfWidth :: rat
  halfHeight :: rat
  planeX :: nat
  planeZ :: nat
  planeX1 :: nat
  planeZ1 :: nat
  segmentWidth :: rat
  segmentHeight :: rat

text \<open>
  \<^verbatim>\<open>Math.floor(s) || 1\<close> for a segment count \<open>s\<close>. Lines 75 and 84 have made \<open>s\<close> at
  least 1 when it is computed, so the floor is a natural number.
\<close>

definition floorOrOne :: "rat \<Rightarrow> nat" where
  "floorOrOne s = (let f = nat \<lfloor>s\<rfloor> in if f = 0 then 1 else f)"

definition mkLocals :: "(rat \<times> rat \<times> rat) option \<Rightarrow> rat \<Rightarrow> rat \<Rightarrow> rat \<Rightarrow> rat \<Rightarrow> locals" where
  "mkLocals c xSz zSz xSeg zSeg =
     \<lparr>centerX = (case c of Some (cx, cy, cz) \<Rightarrow> cx | None \<Rightarrow> 0),
      centerY = (case c of Some (cx, cy, cz) \<Rightarrow> cy | None \<Rightarrow> 0),
      centerZ = (case c of Some (cx, cy, cz) \<Rightarrow> cz | None \<Rightarrow> 0),
      halfWidth = xSz / 2,
      halfHeight = zSz / 2,
      planeX = floorOrOne xSeg,
      planeZ = floorOrOne zSeg,
      planeX1 = floorOrOne xSeg + 1,
      planeZ1 = floorOrOne zSeg + 1,
      segmentWidth = xSz / of_nat (floorOrOne xSeg),
      segmentHeight = zSz / of_nat (floorOrOne zSeg)\<rparr>"

subsection \<open>Typed arrays\<close>

text \<open>
  \<^verbatim>\<open>new T(n)\<close> for a typed array constructor \<open>T\<close> with elements of \<open>esize\<close> bytes and a
  non-negative integer \<open>n\<close>: \<^verbatim>\<open>RangeError\<close> when the byte length exceeds what the host
  allocates or \<open>2^53 - 1\<close>, otherwise \<open>n\<close> zeros.
\<close>

definition newTypedArray :: "nat \<Rightarrow> nat \<Rightarrow> nat \<Rightarrow> error + ('a::zero) list" where
  "newTypedArray mem esize n =
     (if esize * n > min mem (2 ^ 53 - 1) then Inl RangeError else Inr (replicate n 0))"

subsection \<open>The vertex loops (lines 109 to 140)\<close>

record vertex_state =
  vpositions :: "rat list"
  vnormals :: "rat list"
  vuvs :: "rat list"
  voffset :: nat
  voffset2 :: nat

text \<open>
  The body of the inner loop, lines 126 to 138, with \<open>z\<close> of line 122 written out. The
  loop keeps \<open>iz \<le> planeZ\<close>, so the subtraction \<open>planeZ - iz\<close> on natural numbers is
  the source's.
\<close>

definition vertexBody :: "locals \<Rightarrow> nat \<Rightarrow> nat \<Rightarrow> vertex_state \<Rightarrow> vertex_state" where
  "vertexBody p iz ix s =
     (let z = of_nat iz * segmentHeight p - halfHeight p;
          x = of_nat ix * segmentWidth p - halfWidth p;
          off = voffset s;
          off2 = voffset2 s
      in \<lparr>vpositions = (vpositions s)[off := x + centerX p,
                                       off + 1 := centerY p,
                                       off + 2 := - z + centerZ p],
          vnormals = (vnormals s)[off + 2 := - 1],
          vuvs = (vuvs s)[off2 := of_nat ix / of_nat (planeX p),
                          off2 + 1 := of_nat (planeZ p - iz) / of_nat (planeZ p)],
          voffset = off + 3,
          voffset2 = off2 + 2\<rparr>)"

text \<open>\<^verbatim>\<open>for (ix = ...; ix < planeX1; ix++)\<close>, entered with the counter at \<open>ix\<close>.\<close>

function vertexRow :: "locals \<Rightarrow> nat \<Rightarrow> nat \<Rightarrow> vertex_state \<Rightarrow> vertex_state" where
  "vertexRow p iz ix s =
     (if ix < planeX1 p then vertexRow p iz (Suc ix) (vertexBody p iz ix s) else s)"
  by pat_completeness auto
termination
  by (relation "measure (\<lambda>(p, iz, ix, s). planeX1 p - ix)") auto

declare vertexRow.simps [simp del]

text \<open>\<^verbatim>\<open>for (iz = ...; iz < planeZ1; iz++)\<close>, entered with the counter at \<open>iz\<close>.\<close>

function vertexLoop :: "locals \<Rightarrow> nat \<Rightarrow> vertex_state \<Rightarrow> vertex_state" where
  "vertexLoop p iz s =
     (if iz < planeZ1 p then vertexLoop p (Suc iz) (vertexRow p iz 0 s) else s)"
  by pat_completeness auto
termination
  by (relation "measure (\<lambda>(p, iz, s). planeZ1 p - iz)") auto

declare vertexLoop.simps [simp del]

subsection \<open>The index loops (lines 142 to 165)\<close>

text \<open>
  The body of the inner loop, lines 150 to 163, on an index array of element width
  \<open>'a\<close>: \<^term>\<open>of_nat\<close> into a word is the conversion modulo \<open>2 ^ LENGTH('a)\<close> that the
  store into the typed array performs.
\<close>

definition indexBody ::
  "locals \<Rightarrow> nat \<Rightarrow> nat \<Rightarrow> ('a::len) word list \<times> nat \<Rightarrow> 'a word list \<times> nat" where
  "indexBody p iz ix s =
     (let a = ix + planeX1 p * iz;
          b = ix + planeX1 p * (iz + 1);
          c = (ix + 1) + planeX1 p * (iz + 1);
          d = (ix + 1) + planeX1 p * iz;
          off = snd s
      in ((fst s)[off := of_nat d,
                  off + 1 := of_nat b,
                  off + 2 := of_nat a,
                  off + 3 := of_nat d,
                  off + 4 := of_nat c,
                  off + 5 := of_nat b],
          off + 6))"

function indexRow ::
  "locals \<Rightarrow> nat \<Rightarrow> nat \<Rightarrow> ('a::len) word list \<times> nat \<Rightarrow> 'a word list \<times> nat" where
  "indexRow p iz ix s =
     (if ix < planeX p then indexRow p iz (Suc ix) (indexBody p iz ix s) else s)"
  by pat_completeness auto
termination
  by (relation "measure (\<lambda>(p, iz, ix, s). planeX p - ix)") auto

declare indexRow.simps [simp del]

function indexLoop ::
  "locals \<Rightarrow> nat \<Rightarrow> ('a::len) word list \<times> nat \<Rightarrow> 'a word list \<times> nat" where
  "indexLoop p iz s =
     (if iz < planeZ p then indexLoop p (Suc iz) (indexRow p iz 0 s) else s)"
  by pat_completeness auto
termination
  by (relation "measure (\<lambda>(p, iz, s). planeZ p - iz)") auto

declare indexLoop.simps [simp del]

text \<open>
  Line 144 and the loops after it: the element type is chosen from the number of
  vertices, the array is allocated, and the loops fill it from offset 0.
\<close>

definition buildIndices :: "nat \<Rightarrow> locals \<Rightarrow> rat list \<Rightarrow> error + index_array" where
  "buildIndices mem p ps =
     (if (of_nat (length ps) :: rat) / 3 > 65535
      then (case newTypedArray mem 4 (planeX p * planeZ p * 6) of
              Inl e \<Rightarrow> Inl e
            | Inr arr \<Rightarrow> Inr (Uint32Array (fst (indexLoop p 0 (arr, 0)))))
      else (case newTypedArray mem 2 (planeX p * planeZ p * 6) of
              Inl e \<Rightarrow> Inl e
            | Inr arr \<Rightarrow> Inr (Uint16Array (fst (indexLoop p 0 (arr, 0))))))"

subsection \<open>The function\<close>

text \<open>Lines 105 to 174, from the local constants on.\<close>

definition generate :: "nat \<Rightarrow> locals \<Rightarrow> error + geometry" where
  "generate mem p =
     (case newTypedArray mem 4 (planeX1 p * planeZ1 p * 3) of
        Inl e \<Rightarrow> Inl e
      | Inr ps \<Rightarrow>
     (case newTypedArray mem 4 (planeX1 p * planeZ1 p * 3) of
        Inl e \<Rightarrow> Inl e
      | Inr ns \<Rightarrow>
     (case newTypedArray mem 4 (planeX1 p * planeZ1 p * 2) of
        Inl e \<Rightarrow> Inl e
      | Inr us \<Rightarrow>
     (let s = vertexLoop p 0
                \<lparr>vpositions = ps, vnormals = ns, vuvs = us, voffset = 0, voffset2 = 0\<rparr>
      in case buildIndices mem p (vpositions s) of
           Inl e \<Rightarrow> Inl e
         | Inr ix \<Rightarrow>
             Inr \<lparr>primitiveType = ''triangles'',
                  positions = vpositions s,
                  normals = vnormals s,
                  uv = vuvs s,
                  indices = ix\<rparr>))))"

text \<open>The messages written to the console by lines 58 to 86, in order.\<close>

definition consoleLog :: "config \<Rightarrow> string list" where
  "consoleLog cfg =
     fst (read_xSize cfg) @ fst (read_zSize cfg) @
     fst (read_xSegments cfg) @ fst (read_zSegments cfg)"

text \<open>The local constants of lines 58 to 103, as computed from the configuration.\<close>

definition localsOf :: "config \<Rightarrow> locals" where
  "localsOf cfg =
     mkLocals (center cfg) (snd (read_xSize cfg)) (snd (read_zSize cfg))
       (snd (read_xSegments cfg)) (snd (read_zSegments cfg))"

text \<open>
  \<^verbatim>\<open>buildPlaneGeometry(cfg = {})\<close> on a host of allocation limit \<open>mem\<close>: the messages
  written to the console, and either the error thrown or the geometry returned.
\<close>

definition buildPlaneGeometry ::
  "nat \<Rightarrow> config option \<Rightarrow> string list \<times> (error + geometry)" where
  "buildPlaneGeometry mem arg =
     (let cfg = cfgOrDefault arg
      in (consoleLog cfg, generate mem (localsOf cfg)))"

subsection \<open>Closed forms of the arrays and invariants of the loops\<close>

text \<open>
  The definitions of this subsection are not taken from the source: they state what the
  loops compute, element by element, and are proved equal to the arrays of the source
  below. Vertex \<open>k\<close> of the grid is the one of column \<open>k mod planeX1\<close> and row
  \<open>k div planeX1\<close>; cell \<open>k\<close> is the one of column \<open>k mod planeX\<close> and row \<open>k div planeX\<close>.
\<close>

definition vertexCount :: "locals \<Rightarrow> nat" where
  "vertexCount p = planeX1 p * planeZ1 p"

definition positionAt :: "locals \<Rightarrow> nat \<Rightarrow> rat" where
  "positionAt p i =
     (let k = i div 3; ix = k mod planeX1 p; iz = k div planeX1 p
      in if i mod 3 = 0 then (of_nat ix * segmentWidth p - halfWidth p) + centerX p
         else if i mod 3 = 1 then centerY p
         else - (of_nat iz * segmentHeight p - halfHeight p) + centerZ p)"

definition normalAt :: "nat \<Rightarrow> rat" where
  "normalAt i = (if i mod 3 = 2 then - 1 else 0)"

definition uvAt :: "locals \<Rightarrow> nat \<Rightarrow> rat" where
  "uvAt p i =
     (let k = i div 2; ix = k mod planeX1 p; iz = k div planeX1 p
      in if i mod 2 = 0 then of_nat ix / of_nat (planeX p)
         else of_nat (planeZ p - iz) / of_nat (planeZ p))"

text \<open>After \<open>j\<close> vertices: the first \<open>j\<close> vertices are written, the rest is still zero.\<close>

definition vertexInv :: "locals \<Rightarrow> nat \<Rightarrow> vertex_state \<Rightarrow> bool" where
  "vertexInv p j s \<longleftrightarrow>
     voffset s = 3 * j \<and> voffset2 s = 2 * j \<and>
     vpositions s = map (\<lambda>i. if i < 3 * j then positionAt p i else 0) [0..<3 * vertexCount p] \<and>
     vnormals s = map (\<lambda>i. if i < 3 * j then normalAt i else 0) [0..<3 * vertexCount p] \<and>
     vuvs s = map (\<lambda>i. if i < 2 * j then uvAt p i else 0) [0..<2 * vertexCount p]"

definition cellCount :: "locals \<Rightarrow> nat" where
  "cellCount p = planeX p * planeZ p"

definition cellIndices :: "locals \<Rightarrow> nat \<Rightarrow> nat \<Rightarrow> nat list" where
  "cellIndices p iz ix =
     (let a = ix + planeX1 p * iz;
          b = ix + planeX1 p * (iz + 1);
          c = (ix + 1) + planeX1 p * (iz + 1);
          d = (ix + 1) + planeX1 p * iz
      in [d, b, a, d, c, b])"

definition indexAt :: "locals \<Rightarrow> nat \<Rightarrow> nat" where
  "indexAt p i =
     (let k = i div 6
      in cellIndices p (k div planeX p) (k mod planeX p) ! (i mod 6))"

text \<open>After \<open>j\<close> cells: the first \<open>j\<close> cells are written, the rest is still zero.\<close>

definition indexInv :: "locals \<Rightarrow> nat \<Rightarrow> ('a::len) word list \<times> nat \<Rightarrow> bool" where
  "indexInv p j s \<longleftrightarrow>
     snd s = 6 * j \<and>
     fst s = map (\<lambda>i. if i < 6 * j then of_nat (indexAt p i) else 0) [0..<6 * cellCount p]"

text \<open>The largest byte length that is allocated, and the byte length of the index array.\<close>

definition hostLimit :: "nat \<Rightarrow> nat" where
  "hostLimit mem = min mem (2 ^ 53 - 1)"

definition indexBytes :: "locals \<Rightarrow> nat" where
  "indexBytes p = (if vertexCount p > 65535 then 4 else 2) * (6 * cellCount p)"

definition indexArrayOf :: "locals \<Rightarrow> index_array" where
  "indexArrayOf p =
     (if vertexCount p > 65535
      then Uint32Array (map (\<lambda>i. of_nat (indexAt p i)) [0..<6 * cellCount p])
      else Uint16Array (map (\<lambda>i. of_nat (indexAt p i)) [0..<6 * cellCount p]))"

definition geometryOf :: "locals \<Rightarrow> geometry" where
  "geometryOf p =
     \<lparr>primitiveType = ''triangles'',
      positions = map (positionAt p) [0..<3 * vertexCount p],
      normals = map normalAt [0..<3 * vertexCount p],
      uv = map (uvAt p) [0..<2 * vertexCount p],
      indices = indexArrayOf p\<rparr>"

subsection \<open>Concrete configurations\<close>

text \<open>
  A configuration with a center, a negative size and a fractional segment count, and the
  geometry the function returns for it; then the configurations at which claims are
  evaluated.
\<close>

definition sampleConfig :: config where
  "sampleConfig = \<lparr>center = Some (1, 2, 3), xSize = Some (- 2), zSize = Some 4,
                    xSegments = Some (5 / 2), zSegments = Some 7\<rparr>"

definition sampleGeometry :: geometry where
  "sampleGeometry =
     \<lparr>primitiveType = ''triangles'',
      positions = [0, 2, 5, 1, 2, 5, 2, 2, 5, 0, 2, 3, 1, 2, 3, 2, 2, 3, 0, 2, 1, 1, 2, 1, 2, 2, 1],
      normals = [0, 0, - 1, 0, 0, - 1, 0, 0, - 1, 0, 0, - 1, 0, 0, - 1, 0, 0, - 1,
                 0, 0, - 1, 0, 0, - 1, 0, 0, - 1],
      uv = [0, 1, 1 / 2, 1, 1, 1, 0, 1 / 2, 1 / 2, 1 / 2, 1, 1 / 2, 0, 0, 1 / 2, 0, 1, 0],
      indices = Uint16Array [1, 3, 0, 1, 4, 3, 2, 4, 1, 2, 5, 4, 4, 6, 3, 4, 7, 6, 5, 7, 4, 5, 8, 7]\<rparr>"

text \<open>The index held at position \<open>i\<close> of the result, if there is one.\<close>

definition resultIndexAt :: "error + geometry \<Rightarrow> nat \<Rightarrow> nat option" where
  "resultIndexAt r i =
     (case r of
        Inl e \<Rightarrow> None
      | Inr g \<Rightarrow>
          if i < length (index_values (indices g)) then Some (index_values (indices g) ! i)
          else None)"

definition wideConfig :: config where
  "wideConfig = \<lparr>center = None, xSize = None, zSize = None,
                  xSegments = Some 65536, zSegments = None\<rparr>"

text \<open>The modulus of the store into the index array that line 144 chooses.\<close>

definition indexModulus :: "locals \<Rightarrow> nat" where
  "indexModulus p = (if vertexCount p > 65535 then 2 ^ 32 else 2 ^ 16)"

text \<open>The numbers of vertices and of triangles of the result, if there is one.\<close>

definition resultCounts :: "error + geometry \<Rightarrow> (nat \<times> nat) option" where
  "resultCounts r =
     (case r of
        Inl e \<Rightarrow> None
      | Inr g \<Rightarrow> Some (length (positions g) div 3, length (index_values (indices g)) div 3))"

definition unequalConfig :: config where
  "unequalConfig = \<lparr>center = None, xSize = Some 2, zSize = Some 2,
                     xSegments = Some 4, zSegments = Some 8\<rparr>"

definition hugeConfig :: config where
  "hugeConfig = \<lparr>center = None, xSize = None, zSize = None,
                  xSegments = Some 100000000, zSegments = None\<rparr>"

text \<open>
  Whether the host allocates the arrays of a grid of \<open>n\<close> segments on both axes: the
  byte lengths of the positions array (the largest of the three \<^verbatim>\<open>Float32Array\<close>s) and of
  the index array.
\<close>

definition allocationsFit :: "nat \<Rightarrow> nat \<Rightarrow> bool" where
  "allocationsFit mem n \<longleftrightarrow>
     4 * (3 * ((n + 1) * (n + 1))) \<le> min mem (2 ^ 53 - 1) \<and>
     (if (n + 1) * (n + 1) > 65535 then 4 else 2) * (6 * (n * n)) \<le> min mem (2 ^ 53 - 1)"

section \<open>Verification\<close>

subsection \<open>The loops\<close>

lemma upd_map_upt: "(map f [0..<n])[i := v] = map (f(i := v)) [0..<n]"
  by (simp add: list_eq_iff_nth_eq nth_list_update)

lemma positionAt_step:
  assumes "ix < planeX1 p" and "j = iz * planeX1 p + ix"
  shows "(\<lambda>i. if i < 3 * j then positionAt p i else 0)
           (3 * j := of_nat ix * segmentWidth p - halfWidth p + centerX p,
            3 * j + 1 := centerY p,
            3 * j + 2 := - (of_nat iz * segmentHeight p - halfHeight p) + centerZ p)
         = (\<lambda>i. if i < 3 * (j + 1) then positionAt p i else 0)"
proof (rule ext)
  fix i
  have m: "j mod planeX1 p = ix" and d: "j div planeX1 p = iz"
    using assms by simp_all
  consider "i = 3 * j" | "i = 3 * j + 1" | "i = 3 * j + 2" | "i < 3 * j" | "i > 3 * j + 2"
    by linarith
  then show "((\<lambda>i. if i < 3 * j then positionAt p i else 0)
           (3 * j := of_nat ix * segmentWidth p - halfWidth p + centerX p,
            3 * j + 1 := centerY p,
            3 * j + 2 := - (of_nat iz * segmentHeight p - halfHeight p) + centerZ p)) i
         = (if i < 3 * (j + 1) then positionAt p i else 0)"
  proof cases
    case 1
    then show ?thesis by (simp add: positionAt_def m)
  next
    case 2
    then show ?thesis by (simp add: positionAt_def)
  next
    case 3
    have "(3 * j + 2) div 3 = j" by simp
    moreover have "(3 * j + 2) mod 3 = 2" by presburger
    ultimately show ?thesis using 3 by (simp add: positionAt_def d)
  next
    case 4
    then show ?thesis by simp
  next
    case 5
    then show ?thesis by simp
  qed
qed

lemma normalAt_step:
  "(\<lambda>i. if i < 3 * j then normalAt i else 0)(3 * j + 2 := - 1)
     = (\<lambda>i. if i < 3 * (j + 1) then normalAt i else 0)"
proof (rule ext)
  fix i
  consider "i = 3 * j" | "i = 3 * j + 1" | "i = 3 * j + 2" | "i < 3 * j" | "i > 3 * j + 2"
    by linarith
  then show "((\<lambda>i. if i < 3 * j then normalAt i else 0)(3 * j + 2 := - 1)) i
               = (if i < 3 * (j + 1) then normalAt i else 0)"
  proof cases
    case 1
    then show ?thesis by (simp add: normalAt_def)
  next
    case 2
    then show ?thesis by (simp add: normalAt_def)
  next
    case 3
    have "(3 * j + 2) mod 3 = 2" by presburger
    then show ?thesis using 3 by (simp add: normalAt_def)
  next
    case 4
    then show ?thesis by simp
  next
    case 5
    then show ?thesis by simp
  qed
qed

lemma uvAt_step:
  assumes "ix < planeX1 p" and "j = iz * planeX1 p + ix"
  shows "(\<lambda>i. if i < 2 * j then uvAt p i else 0)
           (2 * j := of_nat ix / of_nat (planeX p),
            2 * j + 1 := of_nat (planeZ p - iz) / of_nat (planeZ p))
         = (\<lambda>i. if i < 2 * (j + 1) then uvAt p i else 0)"
proof (rule ext)
  fix i
  have m: "j mod planeX1 p = ix" and d: "j div planeX1 p = iz"
    using assms by simp_all
  consider "i = 2 * j" | "i = 2 * j + 1" | "i < 2 * j" | "i > 2 * j + 1"
    by linarith
  then show "((\<lambda>i. if i < 2 * j then uvAt p i else 0)
           (2 * j := of_nat ix / of_nat (planeX p),
            2 * j + 1 := of_nat (planeZ p - iz) / of_nat (planeZ p))) i
         = (if i < 2 * (j + 1) then uvAt p i else 0)"
  proof cases
    case 1
    then show ?thesis by (simp add: uvAt_def m)
  next
    case 2
    then show ?thesis by (simp add: uvAt_def d)
  next
    case 3
    then show ?thesis by simp
  next
    case 4
    then show ?thesis by simp
  qed
qed

lemma vertexBody_inv:
  assumes "vertexInv p (iz * planeX1 p + ix) s" and "ix < planeX1 p"
  shows "vertexInv p (iz * planeX1 p + ix + 1) (vertexBody p iz ix s)"
proof -
  define j where "j = iz * planeX1 p + ix"
  have off: "voffset s = 3 * j" "voffset2 s = 2 * j"
    and ps: "vpositions s = map (\<lambda>i. if i < 3 * j then positionAt p i else 0) [0..<3 * vertexCount p]"
    and ns: "vnormals s = map (\<lambda>i. if i < 3 * j then normalAt i else 0) [0..<3 * vertexCount p]"
    and us: "vuvs s = map (\<lambda>i. if i < 2 * j then uvAt p i else 0) [0..<2 * vertexCount p]"
    using assms(1) by (simp_all add: vertexInv_def j_def)
  have "vpositions (vertexBody p iz ix s)
          = map (\<lambda>i. if i < 3 * (j + 1) then positionAt p i else 0) [0..<3 * vertexCount p]"
    unfolding vertexBody_def Let_def
    by (simp only: vertex_state.simps off ps upd_map_upt positionAt_step [OF assms(2) j_def])
  moreover have "vnormals (vertexBody p iz ix s)
          = map (\<lambda>i. if i < 3 * (j + 1) then normalAt i else 0) [0..<3 * vertexCount p]"
    unfolding vertexBody_def Let_def
    by (simp only: vertex_state.simps off ns upd_map_upt normalAt_step)
  moreover have "vuvs (vertexBody p iz ix s)
          = map (\<lambda>i. if i < 2 * (j + 1) then uvAt p i else 0) [0..<2 * vertexCount p]"
    unfolding vertexBody_def Let_def
    by (simp only: vertex_state.simps off us upd_map_upt uvAt_step [OF assms(2) j_def])
  moreover have "voffset (vertexBody p iz ix s) = 3 * (j + 1)"
    and "voffset2 (vertexBody p iz ix s) = 2 * (j + 1)"
    by (simp_all add: vertexBody_def Let_def off)
  ultimately show ?thesis
    unfolding vertexInv_def j_def [symmetric] by blast
qed

lemma vertexRow_inv:
  "vertexInv p (iz * planeX1 p + ix) s \<Longrightarrow> ix \<le> planeX1 p \<Longrightarrow>
   vertexInv p ((iz + 1) * planeX1 p) (vertexRow p iz ix s)"
proof (induction p iz ix s rule: vertexRow.induct)
  case (1 p iz ix s)
  show ?case
  proof (cases "ix < planeX1 p")
    case True
    have "vertexInv p (iz * planeX1 p + Suc ix) (vertexBody p iz ix s)"
      using vertexBody_inv [OF "1.prems"(1) True] by simp
    then have "vertexInv p ((iz + 1) * planeX1 p) (vertexRow p iz (Suc ix) (vertexBody p iz ix s))"
      using "1.IH" [OF True] True by simp
    then show ?thesis
      using True by (simp add: vertexRow.simps [of p iz ix s])
  next
    case False
    then have "ix = planeX1 p" using "1.prems"(2) by simp
    moreover have "vertexRow p iz ix s = s"
      using False by (simp add: vertexRow.simps [of p iz ix s])
    ultimately show ?thesis
      using "1.prems"(1) by (simp add: add.commute)
  qed
qed

lemma vertexLoop_inv:
  "vertexInv p (iz * planeX1 p) s \<Longrightarrow> iz \<le> planeZ1 p \<Longrightarrow>
   vertexInv p (planeZ1 p * planeX1 p) (vertexLoop p iz s)"
proof (induction p iz s rule: vertexLoop.induct)
  case (1 p iz s)
  show ?case
  proof (cases "iz < planeZ1 p")
    case True
    have "vertexInv p ((iz + 1) * planeX1 p) (vertexRow p iz 0 s)"
      using vertexRow_inv [of p iz 0 s] "1.prems"(1) by simp
    then have "vertexInv p (planeZ1 p * planeX1 p) (vertexLoop p (Suc iz) (vertexRow p iz 0 s))"
      using "1.IH" [OF True] True by simp
    then show ?thesis
      using True by (simp add: vertexLoop.simps [of p iz s])
  next
    case False
    then have "iz = planeZ1 p" using "1.prems"(2) by simp
    moreover have "vertexLoop p iz s = s"
      using False by (simp add: vertexLoop.simps [of p iz s])
    ultimately show ?thesis
      using "1.prems"(1) by simp
  qed
qed

lemma vertexInv_init:
  "vertexInv p 0 \<lparr>vpositions = replicate (3 * vertexCount p) 0,
                     vnormals = replicate (3 * vertexCount p) 0,
                     vuvs = replicate (2 * vertexCount p) 0,
                     voffset = 0, voffset2 = 0\<rparr>"
  by (simp add: vertexInv_def map_replicate_const)

lemma vertexLoop_result:
  fixes p :: locals
  defines "s \<equiv> vertexLoop p 0 \<lparr>vpositions = replicate (3 * vertexCount p) 0,
                     vnormals = replicate (3 * vertexCount p) 0,
                     vuvs = replicate (2 * vertexCount p) 0,
                     voffset = 0, voffset2 = 0\<rparr>"
  shows "vpositions s = map (positionAt p) [0..<3 * vertexCount p]"
    and "vnormals s = map normalAt [0..<3 * vertexCount p]"
    and "vuvs s = map (uvAt p) [0..<2 * vertexCount p]"
proof -
  have "vertexInv p (planeZ1 p * planeX1 p) s"
    unfolding s_def using vertexLoop_inv [of p 0, OF _ le0] vertexInv_init [of p] by simp
  then have inv: "vertexInv p (vertexCount p) s"
    by (simp add: vertexCount_def mult.commute)
  show "vpositions s = map (positionAt p) [0..<3 * vertexCount p]"
    using inv by (simp add: vertexInv_def)
  show "vnormals s = map normalAt [0..<3 * vertexCount p]"
    using inv by (simp add: vertexInv_def)
  show "vuvs s = map (uvAt p) [0..<2 * vertexCount p]"
    using inv by (simp add: vertexInv_def)
qed

lemma indexAt_cell:
  assumes "ix < planeX p" and "r < 6"
  shows "indexAt p (6 * (iz * planeX p + ix) + r) = cellIndices p iz ix ! r"
proof -
  define k where "k = iz * planeX p + ix"
  have "(6 * k + r) div 6 = k" and "(6 * k + r) mod 6 = r"
    using assms(2) by presburger+
  moreover have "k div planeX p = iz" and "k mod planeX p = ix"
    using assms(1) by (simp_all add: k_def)
  ultimately show ?thesis
    unfolding k_def [symmetric] by (simp add: indexAt_def Let_def)
qed

lemma indexAt_step:
  fixes p :: locals
  assumes "ix < planeX p" and "j = iz * planeX p + ix"
  shows "(\<lambda>i. if i < 6 * j then (of_nat (indexAt p i) :: 'a::len word) else 0)
           (6 * j := of_nat ((ix + 1) + planeX1 p * iz),
            6 * j + 1 := of_nat (ix + planeX1 p * (iz + 1)),
            6 * j + 2 := of_nat (ix + planeX1 p * iz),
            6 * j + 3 := of_nat ((ix + 1) + planeX1 p * iz),
            6 * j + 4 := of_nat ((ix + 1) + planeX1 p * (iz + 1)),
            6 * j + 5 := of_nat (ix + planeX1 p * (iz + 1)))
         = (\<lambda>i. if i < 6 * (j + 1) then of_nat (indexAt p i) else 0)"
proof (rule ext)
  fix i
  let ?f = "(\<lambda>i. if i < 6 * j then (of_nat (indexAt p i) :: 'a word) else 0)
           (6 * j := of_nat ((ix + 1) + planeX1 p * iz),
            6 * j + 1 := of_nat (ix + planeX1 p * (iz + 1)),
            6 * j + 2 := of_nat (ix + planeX1 p * iz),
            6 * j + 3 := of_nat ((ix + 1) + planeX1 p * iz),
            6 * j + 4 := of_nat ((ix + 1) + planeX1 p * (iz + 1)),
            6 * j + 5 := of_nat (ix + planeX1 p * (iz + 1)))"
  have at: "\<And>r. r < 6 \<Longrightarrow> indexAt p (6 * j + r) = cellIndices p iz ix ! r"
    using indexAt_cell [OF assms(1)] assms(2) by simp
  consider "i < 6 * j" | "i > 6 * j + 5" | "i = 6 * j + 0" | "i = 6 * j + 1" | "i = 6 * j + 2"
    | "i = 6 * j + 3" | "i = 6 * j + 4" | "i = 6 * j + 5"
    by linarith
  then show "?f i = (if i < 6 * (j + 1) then of_nat (indexAt p i) else 0)"
  proof cases
    case 1
    then show ?thesis by simp
  next
    case 2
    then show ?thesis by simp
  next
    case 3
    then show ?thesis using at [of 0] by (simp add: cellIndices_def Let_def)
  next
    case 4
    then show ?thesis using at [of 1] by (simp add: cellIndices_def Let_def)
  next
    case 5
    then show ?thesis using at [of 2] by (simp add: cellIndices_def Let_def)
  next
    case 6
    then show ?thesis using at [of 3] by (simp add: cellIndices_def Let_def)
  next
    case 7
    then show ?thesis using at [of 4] by (simp add: cellIndices_def Let_def)
  next
    case 8
    then show ?thesis using at [of 5] by (simp add: cellIndices_def Let_def)
  qed
qed

lemma indexBody_inv:
  fixes s :: "('a::len) word list \<times> nat"
  assumes "indexInv p (iz * planeX p + ix) s" and "ix < planeX p"
  shows "indexInv p (iz * planeX p + ix + 1) (indexBody p iz ix s)"
proof -
  define j where "j = iz * planeX p + ix"
  have off: "snd s = 6 * j"
    and arr: "fst s = map (\<lambda>i. if i < 6 * j then of_nat (indexAt p i) else 0) [0..<6 * cellCount p]"
    using assms(1) by (simp_all add: indexInv_def j_def)
  have "fst (indexBody p iz ix s)
          = map (\<lambda>i. if i < 6 * (j + 1) then of_nat (indexAt p i) else 0) [0..<6 * cellCount p]"
    unfolding indexBody_def Let_def
    by (simp only: fst_conv off arr upd_map_upt indexAt_step [OF assms(2) j_def])
  moreover have "snd (indexBody p iz ix s) = 6 * (j + 1)"
    by (simp add: indexBody_def Let_def off)
  ultimately show ?thesis
    unfolding indexInv_def j_def [symmetric] by blast
qed

lemma indexRow_inv:
  fixes s :: "('a::len) word list \<times> nat"
  shows "indexInv p (iz * planeX p + ix) s \<Longrightarrow> ix \<le> planeX p \<Longrightarrow>
   indexInv p ((iz + 1) * planeX p) (indexRow p iz ix s)"
proof (induction p iz ix s rule: indexRow.induct)
  case (1 p iz ix s)
  show ?case
  proof (cases "ix < planeX p")
    case True
    have "indexInv p (iz * planeX p + Suc ix) (indexBody p iz ix s)"
      using indexBody_inv [OF "1.prems"(1) True] by simp
    then have "indexInv p ((iz + 1) * planeX p) (indexRow p iz (Suc ix) (indexBody p iz ix s))"
      using "1.IH" [OF True] True by simp
    then show ?thesis
      using True by (simp add: indexRow.simps [of p iz ix s])
  next
    case False
    then have "ix = planeX p" using "1.prems"(2) by simp
    moreover have "indexRow p iz ix s = s"
      using False by (simp add: indexRow.simps [of p iz ix s])
    ultimately show ?thesis
      using "1.prems"(1) by (simp add: add.commute)
  qed
qed

lemma indexLoop_inv:
  fixes s :: "('a::len) word list \<times> nat"
  shows "indexInv p (iz * planeX p) s \<Longrightarrow> iz \<le> planeZ p \<Longrightarrow>
   indexInv p (planeZ p * planeX p) (indexLoop p iz s)"
proof (induction p iz s rule: indexLoop.induct)
  case (1 p iz s)
  show ?case
  proof (cases "iz < planeZ p")
    case True
    have "indexInv p ((iz + 1) * planeX p) (indexRow p iz 0 s)"
      using indexRow_inv [of p iz 0 s] "1.prems"(1) by simp
    then have "indexInv p (planeZ p * planeX p) (indexLoop p (Suc iz) (indexRow p iz 0 s))"
      using "1.IH" [OF True] True by simp
    then show ?thesis
      using True by (simp add: indexLoop.simps [of p iz s])
  next
    case False
    then have "iz = planeZ p" using "1.prems"(2) by simp
    moreover have "indexLoop p iz s = s"
      using False by (simp add: indexLoop.simps [of p iz s])
    ultimately show ?thesis
      using "1.prems"(1) by simp
  qed
qed

lemma indexLoop_result:
  "fst (indexLoop p 0 (replicate (6 * cellCount p) (0 :: 'a::len word), 0))
     = map (\<lambda>i. of_nat (indexAt p i)) [0..<6 * cellCount p]"
proof -
  have "indexInv p 0 (replicate (6 * cellCount p) (0 :: 'a word), 0)"
    by (simp add: indexInv_def map_replicate_const)
  then have "indexInv p (planeZ p * planeX p)
               (indexLoop p 0 (replicate (6 * cellCount p) (0 :: 'a word), 0))"
    using indexLoop_inv [of p 0, OF _ le0] by simp
  then have "indexInv p (cellCount p)
               (indexLoop p 0 (replicate (6 * cellCount p) (0 :: 'a word), 0))"
    by (simp add: cellCount_def mult.commute)
  then show ?thesis
    by (simp add: indexInv_def)
qed

lemma buildIndices_eq:
  assumes "length ps = 3 * vertexCount p"
  shows "buildIndices mem p ps =
           (if indexBytes p > hostLimit mem then Inl RangeError else Inr (indexArrayOf p))"
proof -
  have len: "(of_nat (length ps) :: rat) / 3 = of_nat (vertexCount p)"
    using assms by simp
  have big: "((of_nat (length ps) :: rat) / 3 > 65535) = (vertexCount p > 65535)"
    unfolding len by (metis of_nat_less_iff of_nat_numeral)
  have n: "planeX p * planeZ p * 6 = 6 * cellCount p"
    by (simp add: cellCount_def)
  show ?thesis
  proof (cases "vertexCount p > 65535")
    case True
    then show ?thesis
      unfolding buildIndices_def big n
      by (simp add: newTypedArray_def indexBytes_def hostLimit_def indexArrayOf_def
            indexLoop_result)
  next
    case False
    then show ?thesis
      unfolding buildIndices_def big n
      by (simp add: newTypedArray_def indexBytes_def hostLimit_def indexArrayOf_def
            indexLoop_result)
  qed
qed

lemma generate_eq:
  "generate mem p =
     (if 12 * vertexCount p > hostLimit mem \<or> indexBytes p > hostLimit mem
      then Inl RangeError else Inr (geometryOf p))"
proof (cases "12 * vertexCount p > hostLimit mem")
  case True
  then have "newTypedArray mem 4 (planeX1 p * planeZ1 p * 3) = (Inl RangeError :: error + rat list)"
    by (simp add: newTypedArray_def hostLimit_def vertexCount_def)
  then show ?thesis
    using True by (simp add: generate_def)
next
  case False
  have a3: "newTypedArray mem 4 (planeX1 p * planeZ1 p * 3)
              = (Inr (replicate (3 * vertexCount p) 0) :: error + rat list)"
    using False by (simp add: newTypedArray_def hostLimit_def vertexCount_def mult.commute)
  have a2: "newTypedArray mem 4 (planeX1 p * planeZ1 p * 2)
              = (Inr (replicate (2 * vertexCount p) 0) :: error + rat list)"
    using False by (simp add: newTypedArray_def hostLimit_def vertexCount_def mult.commute)
  define s where "s = vertexLoop p 0 \<lparr>vpositions = replicate (3 * vertexCount p) 0,
                     vnormals = replicate (3 * vertexCount p) 0,
                     vuvs = replicate (2 * vertexCount p) 0,
                     voffset = 0, voffset2 = 0\<rparr>"
  have ps: "vpositions s = map (positionAt p) [0..<3 * vertexCount p]"
    and ns: "vnormals s = map normalAt [0..<3 * vertexCount p]"
    and us: "vuvs s = map (uvAt p) [0..<2 * vertexCount p]"
    unfolding s_def by (rule vertexLoop_result)+
  have g: "generate mem p =
             (case buildIndices mem p (vpositions s) of
                Inl e \<Rightarrow> Inl e
              | Inr ix \<Rightarrow>
                  Inr \<lparr>primitiveType = ''triangles'', positions = vpositions s,
                       normals = vnormals s, uv = vuvs s, indices = ix\<rparr>)"
    unfolding generate_def a3 a2 s_def by (simp add: Let_def)
  have "length (vpositions s) = 3 * vertexCount p"
    by (simp add: ps)
  then have b: "buildIndices mem p (vpositions s) =
           (if indexBytes p > hostLimit mem then Inl RangeError else Inr (indexArrayOf p))"
    by (rule buildIndices_eq)
  show ?thesis
    unfolding g b using False by (simp add: geometryOf_def ps ns us)
qed

subsection \<open>The normalised configuration\<close>

lemma read_zSegments_eq: "snd (read_zSegments cfg) = snd (read_xSegments cfg)"
  by (simp add: read_zSegments_def read_xSegments_def invertNegative_def split: prod.splits)

lemma read_xSegments_ge1: "1 \<le> snd (read_xSegments cfg)"
  by (simp add: read_xSegments_def invertNegative_def atLeastOne_def)


lemma floorOrOne_floor: "1 \<le> s \<Longrightarrow> int (floorOrOne s) = \<lfloor>s\<rfloor>"
proof -
  assume "1 \<le> s"
  then have "1 \<le> \<lfloor>s\<rfloor>" by (simp add: le_floor_iff)
  then show ?thesis by (simp add: floorOrOne_def Let_def)
qed

lemma localsOf_planeZ: "planeZ (localsOf cfg) = planeX (localsOf cfg)"
  by (simp add: localsOf_def mkLocals_def read_zSegments_eq)

lemma localsOf_planeX1: "planeX1 (localsOf cfg) = planeX (localsOf cfg) + 1"
  by (simp add: localsOf_def mkLocals_def)

lemma localsOf_planeZ1: "planeZ1 (localsOf cfg) = planeZ (localsOf cfg) + 1"
  by (simp add: localsOf_def mkLocals_def)


lemma localsOf_zSegments: "localsOf (cfg\<lparr>zSegments := v\<rparr>) = localsOf cfg"
  by (simp add: localsOf_def read_xSize_def read_zSize_def read_xSegments_def read_zSegments_def)

lemma consoleLog_zSegments: "consoleLog (cfg\<lparr>zSegments := v\<rparr>) = consoleLog cfg"
  by (simp add: consoleLog_def read_xSize_def read_zSize_def read_xSegments_def read_zSegments_def)

lemma buildPlaneGeometry_eq:
  "buildPlaneGeometry mem arg =
     (consoleLog (cfgOrDefault arg), generate mem (localsOf (cfgOrDefault arg)))"
  by (simp add: buildPlaneGeometry_def Let_def)

subsection \<open>Evaluation on concrete configurations\<close>

lemma replicate_numeral: "replicate (numeral k) x = x # replicate (pred_numeral k) x"
  by (simp add: numeral_eq_Suc)

lemma list_update_Cons_numeral: "(x # xs)[numeral k := v] = x # xs[pred_numeral k := v]"
  by (simp add: numeral_eq_Suc)

lemma floor_rat_numeral_div: "\<lfloor>(numeral a / numeral b :: rat)\<rfloor> = numeral a div numeral b"
  using floor_divide_of_int_eq [of "numeral a" "numeral b", where ?'a = rat] by simp

lemmas locals_eval =
  cfgOrDefault_def emptyConfig_def read_xSize_def read_zSize_def read_xSegments_def
  read_zSegments_def invertNegative_def orElse_def atLeastOne_def mkLocals_def floorOrOne_def
  consoleLog_def localsOf_def floor_rat_numeral_div Let_def

lemmas run_eval =
  buildPlaneGeometry_def generate_def newTypedArray_def buildIndices_def vertexBody_def
  indexBody_def vertexRow.simps vertexLoop.simps indexRow.simps indexLoop.simps
  replicate_numeral list_update_Cons_numeral locals_eval

lemma sample_run:
  "buildPlaneGeometry (2 ^ 53 - 1) (Some sampleConfig) = ([msg_xSize], Inr sampleGeometry)"
  by (simp add: sampleConfig_def sampleGeometry_def run_eval)

lemma sample_locals:
  "localsOf (cfgOrDefault (Some sampleConfig)) =
     \<lparr>centerX = 1, centerY = 2, centerZ = 3, halfWidth = 1, halfHeight = 2,
      planeX = 2, planeZ = 2, planeX1 = 3, planeZ1 = 3, segmentWidth = 1, segmentHeight = 2\<rparr>"
  by (simp add: sampleConfig_def locals_eval)

subsection \<open>The segment counts\<close>

text \<open>
  C1. The Z-axis grid density is derived from \<^verbatim>\<open>cfg.xSegments\<close>: whatever is supplied as
  \<^verbatim>\<open>cfg.zSegments\<close>, the console output and the result are those of the configuration
  without it, and the number of segments along Z equals the number along X, which is
  the floor of the normalised \<^verbatim>\<open>cfg.xSegments\<close>.
\<close>

theorem zSegments_has_no_effect:
  "buildPlaneGeometry mem (Some (cfg\<lparr>zSegments := v\<rparr>)) = buildPlaneGeometry mem (Some cfg)
   \<and> planeZ (localsOf (cfg\<lparr>zSegments := v\<rparr>)) = planeX (localsOf cfg)
   \<and> int (planeX (localsOf cfg)) = \<lfloor>snd (read_xSegments cfg)\<rfloor>"
proof -
  have "buildPlaneGeometry mem (Some (cfg\<lparr>zSegments := v\<rparr>)) = buildPlaneGeometry mem (Some cfg)"
    by (simp add: buildPlaneGeometry_eq cfgOrDefault_def localsOf_zSegments consoleLog_zSegments)
  moreover have "planeZ (localsOf (cfg\<lparr>zSegments := v\<rparr>)) = planeX (localsOf cfg)"
    by (simp add: localsOf_zSegments localsOf_planeZ)
  moreover have "int (planeX (localsOf cfg)) = \<lfloor>snd (read_xSegments cfg)\<rfloor>"
    using floorOrOne_floor [OF read_xSegments_ge1 [of cfg]]
    by (simp add: localsOf_def mkLocals_def)
  ultimately show ?thesis by blast
qed

theorem zSegments_has_no_effect_witness:
  "xSegments unequalConfig = Some 4 \<and> zSegments unequalConfig = Some 8
   \<and> buildPlaneGeometry (2 ^ 53 - 1) (Some (unequalConfig\<lparr>zSegments := Some 4\<rparr>))
       = buildPlaneGeometry (2 ^ 53 - 1) (Some unequalConfig)
   \<and> planeX (localsOf unequalConfig) = 4
   \<and> planeZ (localsOf (unequalConfig\<lparr>zSegments := Some 4\<rparr>)) = 4"
proof -
  have x: "planeX (localsOf unequalConfig) = 4"
    by (simp add: unequalConfig_def locals_eval)
  have c: "xSegments unequalConfig = Some 4 \<and> zSegments unequalConfig = Some 8"
    by (simp add: unequalConfig_def)
  show ?thesis
    using c x
      zSegments_has_no_effect [where mem = "2 ^ 53 - 1" and v = "Some 4" and cfg = unequalConfig]
    by simp
qed

subsection \<open>The result in closed form\<close>

lemma result_geometry:
  "snd (buildPlaneGeometry mem arg) = Inr g \<Longrightarrow> g = geometryOf (localsOf (cfgOrDefault arg))"
  by (simp add: buildPlaneGeometry_eq generate_eq split: if_splits)

lemma cellIndices_le:
  "x \<in> set (cellIndices p iz ix) \<Longrightarrow> x \<le> (ix + 1) + planeX1 p * (iz + 1)"
  by (auto simp: cellIndices_def Let_def)

lemma indexAt_less:
  assumes x1: "planeX1 p = planeX p + 1" and z1: "planeZ1 p = planeZ p + 1"
    and i: "i < 6 * cellCount p"
  shows "indexAt p i < vertexCount p"
proof -
  define k where "k = i div 6"
  define ix where "ix = k mod planeX p"
  define iz where "iz = k div planeX p"
  have k: "k < planeX p * planeZ p"
    using i unfolding k_def cellCount_def by simp
  then have xpos: "0 < planeX p"
    by (cases "planeX p") simp_all
  have ix: "ix < planeX p"
    unfolding ix_def using xpos by simp
  have iz: "iz < planeZ p"
    unfolding iz_def using k xpos by (simp add: less_mult_imp_div_less mult.commute)
  have "i mod 6 < length (cellIndices p iz ix)"
    by (simp add: cellIndices_def Let_def)
  then have "cellIndices p iz ix ! (i mod 6) \<in> set (cellIndices p iz ix)"
    by (rule nth_mem)
  then have "indexAt p i \<le> (ix + 1) + planeX1 p * (iz + 1)"
    unfolding indexAt_def Let_def k_def [symmetric] ix_def [symmetric] iz_def [symmetric]
    by (rule cellIndices_le)
  also have "\<dots> \<le> planeX p + planeX1 p * planeZ p"
  proof -
    have "iz + 1 \<le> planeZ p" using iz by simp
    then have "planeX1 p * (iz + 1) \<le> planeX1 p * planeZ p"
      by (rule mult_le_mono2)
    moreover have "ix + 1 \<le> planeX p" using ix by simp
    ultimately show ?thesis by (rule add_le_mono [rotated])
  qed
  also have "\<dots> < planeX1 p * planeZ1 p"
    by (simp add: x1 z1)
  finally show ?thesis
    by (simp add: vertexCount_def)
qed

lemma index_values_indexArrayOf:
  "index_values (indexArrayOf p) =
     (if vertexCount p > 65535
      then map (\<lambda>i. indexAt p i mod 2 ^ 32) [0..<6 * cellCount p]
      else map (\<lambda>i. indexAt p i mod 2 ^ 16) [0..<6 * cellCount p])"
  by (simp add: indexArrayOf_def unat_of_nat comp_def)

lemma index_values_length: "length (index_values (indexArrayOf p)) = 6 * cellCount p"
  by (simp add: index_values_indexArrayOf)

lemma index_values_less:
  assumes "planeX1 p = planeX p + 1" and "planeZ1 p = planeZ p + 1"
    and "v \<in> set (index_values (indexArrayOf p))"
  shows "v < vertexCount p"
proof -
  obtain i m where i: "i < 6 * cellCount p" and v: "v = indexAt p i mod m"
    using assms(3) by (auto simp: index_values_indexArrayOf split: if_splits)
  have "v \<le> indexAt p i"
    unfolding v by (rule mod_less_eq_dividend)
  also have "\<dots> < vertexCount p"
    using assms(1,2) i by (rule indexAt_less)
  finally show ?thesis .
qed

text \<open>
  C3. Whenever a geometry is returned, with \<open>vertexCount\<close> the number of vertices the
  loops generate (\<open>planeX1 * planeZ1\<close>): positions and normals have \<open>3 * vertexCount\<close>
  elements, the texture coordinates \<open>2 * vertexCount\<close>, the number of indices is
  divisible by 3, and every index is below \<open>vertexCount\<close>.
\<close>

theorem output_structure:
  assumes "snd (buildPlaneGeometry mem arg) = Inr g"
  shows "length (positions g) = 3 * vertexCount (localsOf (cfgOrDefault arg))
       \<and> length (normals g) = 3 * vertexCount (localsOf (cfgOrDefault arg))
       \<and> length (uv g) = 2 * vertexCount (localsOf (cfgOrDefault arg))
       \<and> length (index_values (indices g)) mod 3 = 0
       \<and> (\<forall>v \<in> set (index_values (indices g)). v < vertexCount (localsOf (cfgOrDefault arg)))"
proof -
  define p where "p = localsOf (cfgOrDefault arg)"
  have g: "g = geometryOf p"
    unfolding p_def using assms by (rule result_geometry)
  have "length (index_values (indices g)) = 3 * (2 * cellCount p)"
    by (simp add: g geometryOf_def index_values_length)
  then have "length (index_values (indices g)) mod 3 = 0"
    by simp
  moreover have "\<forall>v \<in> set (index_values (indices g)). v < vertexCount p"
    using index_values_less [of p] localsOf_planeX1 localsOf_planeZ1
    by (simp add: g geometryOf_def p_def)
  moreover have "length (positions g) = 3 * vertexCount p"
    and "length (normals g) = 3 * vertexCount p"
    and "length (uv g) = 2 * vertexCount p"
    by (simp_all add: g geometryOf_def)
  ultimately show ?thesis
    unfolding p_def by blast
qed

theorem output_structure_witness:
  "snd (buildPlaneGeometry (2 ^ 53 - 1) (Some sampleConfig)) = Inr sampleGeometry
   \<and> vertexCount (localsOf (cfgOrDefault (Some sampleConfig))) = 9
   \<and> length (positions sampleGeometry) = 27
   \<and> length (normals sampleGeometry) = 27
   \<and> length (uv sampleGeometry) = 18
   \<and> length (index_values (indices sampleGeometry)) mod 3 = 0
   \<and> list_all (\<lambda>v. v < 9) (index_values (indices sampleGeometry))"
proof -
  have r: "snd (buildPlaneGeometry (2 ^ 53 - 1) (Some sampleConfig)) = Inr sampleGeometry"
    using sample_run by simp
  have n: "vertexCount (localsOf (cfgOrDefault (Some sampleConfig))) = 9"
    by (simp add: sample_locals vertexCount_def)
  show ?thesis
    using r output_structure [OF r] unfolding n by (simp add: list_all_iff)
qed

lemma nth_map_upt0: "i < n \<Longrightarrow> map f [0..<n] ! i = f i"
  by simp

text \<open>
  C6. Whenever a geometry is returned, the normal of every vertex \<open>k\<close> is \<open>(0, 0, -1)\<close>:
  the normals array has three components for each of the \<open>vertexCount\<close> vertices,
  components \<open>3k\<close> and \<open>3k + 1\<close> are 0 and component \<open>3k + 2\<close> is \<open>-1\<close>.
\<close>

theorem normals_uniform:
  assumes "snd (buildPlaneGeometry mem arg) = Inr g"
    and "k < vertexCount (localsOf (cfgOrDefault arg))"
  shows "length (normals g) = 3 * vertexCount (localsOf (cfgOrDefault arg))
       \<and> normals g ! (3 * k) = 0
       \<and> normals g ! (3 * k + 1) = 0
       \<and> normals g ! (3 * k + 2) = - 1"
proof -
  define p where "p = localsOf (cfgOrDefault arg)"
  have g: "normals g = map normalAt [0..<3 * vertexCount p]"
    using result_geometry [OF assms(1)] by (simp add: geometryOf_def p_def)
  have k: "3 * k < 3 * vertexCount p" "3 * k + 1 < 3 * vertexCount p"
    "3 * k + 2 < 3 * vertexCount p"
    using assms(2) by (simp_all add: p_def)
  have m: "(3 * k) mod 3 = 0" "(3 * k + 1) mod 3 = 1" "(3 * k + 2) mod 3 = 2"
    by presburger+
  have "normals g ! (3 * k) = 0"
    unfolding g nth_map_upt0 [OF k(1)] normalAt_def m by simp
  moreover have "normals g ! (3 * k + 1) = 0"
    unfolding g nth_map_upt0 [OF k(2)] normalAt_def m by simp
  moreover have "normals g ! (3 * k + 2) = - 1"
    unfolding g nth_map_upt0 [OF k(3)] normalAt_def m by simp
  moreover have "length (normals g) = 3 * vertexCount p"
    by (simp add: g)
  ultimately show ?thesis
    unfolding p_def by blast
qed

theorem normals_uniform_witness:
  "snd (buildPlaneGeometry (2 ^ 53 - 1) (Some sampleConfig)) = Inr sampleGeometry
   \<and> (4::nat) < vertexCount (localsOf (cfgOrDefault (Some sampleConfig)))
   \<and> length (normals sampleGeometry) = 27
   \<and> normals sampleGeometry ! 12 = 0
   \<and> normals sampleGeometry ! 13 = 0
   \<and> normals sampleGeometry ! 14 = - 1"
proof -
  have r: "snd (buildPlaneGeometry (2 ^ 53 - 1) (Some sampleConfig)) = Inr sampleGeometry"
    using sample_run by simp
  have n: "vertexCount (localsOf (cfgOrDefault (Some sampleConfig))) = 9"
    by (simp add: sample_locals vertexCount_def)
  have k: "4 < vertexCount (localsOf (cfgOrDefault (Some sampleConfig)))"
    by (simp add: n)
  show ?thesis
    using r k normals_uniform [OF r k] unfolding n by simp
qed





subsection \<open>Triangulation\<close>

lemma take_drop_nth:
  "n + m \<le> length xs \<Longrightarrow> take m (drop n xs) = map (\<lambda>r. xs ! (n + r)) [0..<m]"
  by (simp add: list_eq_iff_nth_eq)

lemma index_values_nth:
  assumes "i < 6 * cellCount p"
  shows "index_values (indexArrayOf p) ! i = indexAt p i mod indexModulus p"
  using assms by (simp add: index_values_indexArrayOf indexModulus_def)

lemma cell_slots:
  assumes "ix < planeX p" and "iz < planeZ p"
  shows "6 * (iz * planeX p + ix) + 6 \<le> 6 * cellCount p"
proof -
  have "iz * planeX p + ix < iz * planeX p + planeX p"
    using assms(1) by simp
  also have "\<dots> = (iz + 1) * planeX p"
    by simp
  also have "\<dots> \<le> planeZ p * planeX p"
    using assms(2) by (intro mult_le_mono1) simp
  finally have "iz * planeX p + ix < cellCount p"
    by (simp add: cellCount_def mult.commute)
  then show ?thesis by simp
qed

lemma cell_values:
  assumes ix: "ix < planeX p" and iz: "iz < planeZ p"
  shows "take 6 (drop (6 * (iz * planeX p + ix)) (index_values (indexArrayOf p)))
           = map (\<lambda>v. v mod indexModulus p) (cellIndices p iz ix)"
proof -
  define j where "j = iz * planeX p + ix"
  have fit: "6 * j + 6 \<le> 6 * cellCount p"
    unfolding j_def using ix iz by (rule cell_slots)
  have len: "length (cellIndices p iz ix) = 6"
    by (simp add: cellIndices_def Let_def)
  have "take 6 (drop (6 * j) (index_values (indexArrayOf p)))
          = map (\<lambda>r. index_values (indexArrayOf p) ! (6 * j + r)) [0..<6]"
    using fit by (intro take_drop_nth) (simp add: index_values_length)
  also have "\<dots> = map (\<lambda>r. cellIndices p iz ix ! r mod indexModulus p) [0..<6]"
  proof (rule map_cong [OF refl])
    fix r assume "r \<in> set [0..<6]"
    then have r: "r < 6" by simp
    then have "6 * j + r < 6 * cellCount p"
      using fit by simp
    then have "index_values (indexArrayOf p) ! (6 * j + r) = indexAt p (6 * j + r) mod indexModulus p"
      by (rule index_values_nth)
    then show "index_values (indexArrayOf p) ! (6 * j + r)
                 = cellIndices p iz ix ! r mod indexModulus p"
      unfolding j_def indexAt_cell [OF ix r] .
  qed
  also have "\<dots> = map (\<lambda>v. v mod indexModulus p) (map (\<lambda>r. cellIndices p iz ix ! r) [0..<6])"
    by (simp only: map_map comp_def)
  also have "map (\<lambda>r. cellIndices p iz ix ! r) [0..<6] = cellIndices p iz ix"
    using map_nth [of "cellIndices p iz ix"] by (simp only: len)
  finally show ?thesis
    unfolding j_def .
qed

lemma cell_values_exact:
  assumes x1: "planeX1 p = planeX p + 1" and z1: "planeZ1 p = planeZ p + 1"
    and ix: "ix < planeX p" and iz: "iz < planeZ p"
    and small: "vertexCount p \<le> 2 ^ 32"
  shows "map (\<lambda>v. v mod indexModulus p) (cellIndices p iz ix) = cellIndices p iz ix"
proof -
  have bound: "vertexCount p \<le> indexModulus p"
    using small by (simp add: indexModulus_def)
  have "v mod indexModulus p = v" if "v \<in> set (cellIndices p iz ix)" for v
  proof -
    have "v \<le> (ix + 1) + planeX1 p * (iz + 1)"
      using that by (rule cellIndices_le)
    also have "\<dots> \<le> planeX p + planeX1 p * planeZ p"
    proof -
      have "iz + 1 \<le> planeZ p" using iz by simp
      then have "planeX1 p * (iz + 1) \<le> planeX1 p * planeZ p"
        by (rule mult_le_mono2)
      moreover have "ix + 1 \<le> planeX p" using ix by simp
      ultimately show ?thesis by (rule add_le_mono [rotated])
    qed
    also have "\<dots> < planeX1 p * planeZ1 p"
      by (simp add: x1 z1)
    finally have "v < indexModulus p"
      using bound by (simp add: vertexCount_def)
    then show ?thesis by simp
  qed
  then show ?thesis
    by (simp add: map_idI)
qed


text \<open>
  C4, as amended. Whenever a geometry is returned, with \<open>n\<close> the effective segment count
  of both axes: the index array holds six entries for each of the cells, the cell
  \<open>(ix, iz)\<close> at entries \<open>6 * (iz * n + ix)\<close> onwards (row-major order), and these six
  entries are \<open>d, b, a, d, c, b\<close> reduced modulo the width of the index array; they are
  \<open>d, b, a, d, c, b\<close> themselves when the grid has at most \<open>2^32\<close> vertices.
\<close>

theorem triangulation_modulo_width:
  assumes "snd (buildPlaneGeometry mem arg) = Inr g"
    and "p = localsOf (cfgOrDefault arg)"
    and "ix < planeX p" and "iz < planeZ p"
    and "a = ix + (planeX p + 1) * iz"
    and "b = ix + (planeX p + 1) * (iz + 1)"
    and "c = (ix + 1) + (planeX p + 1) * (iz + 1)"
    and "d = (ix + 1) + (planeX p + 1) * iz"
  shows "length (index_values (indices g)) = 6 * (planeX p * planeZ p)
       \<and> take 6 (drop (6 * (iz * planeX p + ix)) (index_values (indices g)))
           = map (\<lambda>v. v mod indexModulus p) [d, b, a, d, c, b]
       \<and> (vertexCount p \<le> 2 ^ 32 \<longrightarrow>
            take 6 (drop (6 * (iz * planeX p + ix)) (index_values (indices g)))
              = [d, b, a, d, c, b])"
proof -
  have x1: "planeX1 p = planeX p + 1" and z1: "planeZ1 p = planeZ p + 1"
    unfolding assms(2) by (rule localsOf_planeX1 localsOf_planeZ1)+
  have g: "indices g = indexArrayOf p"
    using result_geometry [OF assms(1)] by (simp add: geometryOf_def assms(2))
  have cell: "cellIndices p iz ix = [d, b, a, d, c, b]"
    by (simp add: cellIndices_def Let_def x1 assms(5-8))
  have len: "length (index_values (indices g)) = 6 * (planeX p * planeZ p)"
    by (simp add: g index_values_length cellCount_def)
  have vals: "take 6 (drop (6 * (iz * planeX p + ix)) (index_values (indices g)))
                = map (\<lambda>v. v mod indexModulus p) [d, b, a, d, c, b]"
    unfolding g cell [symmetric] using assms(3,4) by (rule cell_values)
  have "take 6 (drop (6 * (iz * planeX p + ix)) (index_values (indices g))) = [d, b, a, d, c, b]"
    if "vertexCount p \<le> 2 ^ 32"
    unfolding vals cell [symmetric] using x1 z1 assms(3,4) that by (rule cell_values_exact)
  then show ?thesis
    using len vals by blast
qed

theorem triangulation_modulo_width_witness:
  "snd (buildPlaneGeometry (2 ^ 53 - 1) (Some sampleConfig)) = Inr sampleGeometry
   \<and> (1::nat) < planeX (localsOf (cfgOrDefault (Some sampleConfig)))
   \<and> (1::nat) < planeZ (localsOf (cfgOrDefault (Some sampleConfig)))
   \<and> vertexCount (localsOf (cfgOrDefault (Some sampleConfig))) \<le> 2 ^ 32
   \<and> length (index_values (indices sampleGeometry)) = 24
   \<and> take 6 (drop 18 (index_values (indices sampleGeometry))) = [5, 7, 4, 5, 8, 7]"
proof -
  have r: "snd (buildPlaneGeometry (2 ^ 53 - 1) (Some sampleConfig)) = Inr sampleGeometry"
    using sample_run by simp
  have x: "1 < planeX (localsOf (cfgOrDefault (Some sampleConfig)))"
    and z: "1 < planeZ (localsOf (cfgOrDefault (Some sampleConfig)))"
    by (simp_all add: sample_locals)
  have n: "vertexCount (localsOf (cfgOrDefault (Some sampleConfig))) \<le> 2 ^ 32"
    by (simp add: sample_locals vertexCount_def)
  note t = triangulation_modulo_width [OF r refl x z refl refl refl refl]
  have "length (index_values (indices sampleGeometry)) = 24"
    using t by (simp add: sample_locals)
  moreover have "take 6 (drop 18 (index_values (indices sampleGeometry))) = [5, 7, 4, 5, 8, 7]"
    using t n by (simp add: sample_locals indexModulus_def vertexCount_def)
  ultimately show ?thesis
    using r x z n by blast
qed

text \<open>
  C4 fails as stated on a grid of more than \<open>2^32\<close> vertices. With \<^verbatim>\<open>xSegments: 65536\<close>
  the grid has \<open>65537 * 65537\<close> vertices and line 144 chooses a \<^verbatim>\<open>Uint32Array\<close>. For the
  last cell \<open>(ix, iz) = (65535, 65535)\<close> the corner \<open>c\<close> is \<open>4295098368\<close>, and the entry
  stored for it, the fifth of the cell, is \<open>131072\<close>.
\<close>

theorem triangulation_counterexample:
  "resultIndexAt (snd (buildPlaneGeometry (2 ^ 53 - 1) (Some wideConfig)))
     (6 * (65535 * 65536 + 65535) + 4) = Some 131072
   \<and> (65535 + 1) + (65536 + 1) * (65535 + 1) = (4295098368 :: nat)"
proof -
  define p where "p = localsOf (cfgOrDefault (Some wideConfig))"
  have px: "planeX p = 65536" and pz: "planeZ p = 65536"
    and px1: "planeX1 p = 65537" and pz1: "planeZ1 p = 65537"
    by (simp_all add: p_def wideConfig_def locals_eval)
  have n: "vertexCount p = 65537 * 65537" and m: "cellCount p = 65536 * 65536"
    by (simp_all add: vertexCount_def cellCount_def px pz px1 pz1)
  have r: "snd (buildPlaneGeometry (2 ^ 53 - 1) (Some wideConfig)) = Inr (geometryOf p)"
    by (simp add: buildPlaneGeometry_eq generate_eq p_def [symmetric] hostLimit_def
          indexBytes_def n m)
  have i: "6 * (65535 * planeX p + 65535) + 4 < 6 * cellCount p"
    by (simp add: px m)
  have "index_values (indexArrayOf p) ! (6 * (65535 * planeX p + 65535) + 4)
          = indexAt p (6 * (65535 * planeX p + 65535) + 4) mod indexModulus p"
    using i by (rule index_values_nth)
  also have "indexAt p (6 * (65535 * planeX p + 65535) + 4) = cellIndices p 65535 65535 ! 4"
    by (rule indexAt_cell) (simp_all add: px)
  also have "cellIndices p 65535 65535 ! 4 mod indexModulus p = 131072"
    by (simp add: cellIndices_def Let_def indexModulus_def n px1)
  finally have v: "index_values (indexArrayOf p) ! (6 * (65535 * planeX p + 65535) + 4) = 131072" .
  have "resultIndexAt (Inr (geometryOf p)) (6 * (65535 * planeX p + 65535) + 4) = Some 131072"
    using i v by (simp add: resultIndexAt_def geometryOf_def index_values_length)
  then show ?thesis
    unfolding r px by simp
qed

subsection \<open>Counts\<close>

text \<open>
  C2 fails on the code: with \<^verbatim>\<open>xSegments: 4, zSegments: 8\<close> and positive sizes the claim
  gives \<open>(4+1)*(8+1) = 45\<close> vertices and \<open>2*4*8 = 64\<close> triangles, and the function returns
  25 vertices and 32 triangles, since line 79 reads \<^verbatim>\<open>cfg.xSegments\<close>.
\<close>

theorem unequal_segments_counts:
  "resultCounts (snd (buildPlaneGeometry (2 ^ 53 - 1) (Some unequalConfig))) = Some (25, 32)
   \<and> ((4 + 1) * (8 + 1), 2 * 4 * 8) = (45 :: nat, 64 :: nat)"
proof -
  define p where "p = localsOf (cfgOrDefault (Some unequalConfig))"
  have px: "planeX p = 4" and pz: "planeZ p = 4" and px1: "planeX1 p = 5" and pz1: "planeZ1 p = 5"
    by (simp_all add: p_def unequalConfig_def locals_eval)
  have n: "vertexCount p = 25" and m: "cellCount p = 16"
    by (simp_all add: vertexCount_def cellCount_def px pz px1 pz1)
  have r: "snd (buildPlaneGeometry (2 ^ 53 - 1) (Some unequalConfig)) = Inr (geometryOf p)"
    by (simp add: buildPlaneGeometry_eq generate_eq p_def [symmetric] hostLimit_def
          indexBytes_def n m)
  have "resultCounts (Inr (geometryOf p)) = Some (25, 32)"
    by (simp add: resultCounts_def geometryOf_def index_values_length n m)
  then show ?thesis
    unfolding r by simp
qed

subsection \<open>Totality\<close>

lemma allocationsFit_iff:
  assumes "planeX1 p = planeX p + 1" and "planeZ1 p = planeZ p + 1" and "planeZ p = planeX p"
  shows "allocationsFit mem (planeX p)
           \<longleftrightarrow> \<not> (12 * vertexCount p > hostLimit mem \<or> indexBytes p > hostLimit mem)"
  by (simp add: allocationsFit_def vertexCount_def cellCount_def indexBytes_def hostLimit_def
        assms not_less)

lemma huge_run: "snd (buildPlaneGeometry mem (Some hugeConfig)) = Inl RangeError"
proof -
  define p where "p = localsOf (cfgOrDefault (Some hugeConfig))"
  have px1: "planeX1 p = 100000001" and pz1: "planeZ1 p = 100000001"
    by (simp_all add: p_def hugeConfig_def locals_eval)
  have "hostLimit mem \<le> 2 ^ 53 - 1"
    by (simp add: hostLimit_def)
  also have "\<dots> < 12 * vertexCount p"
    by (simp add: vertexCount_def px1 pz1)
  finally show ?thesis
    by (simp add: buildPlaneGeometry_eq generate_eq p_def [symmetric])
qed

text \<open>
  C8 fails as stated: with \<^verbatim>\<open>xSegments: 100000000\<close> the positions array would have
  \<open>3 * 100000001 * 100000001\<close> elements, more than \<open>2^53 - 1\<close>, and
  \<^verbatim>\<open>new Float32Array\<close> throws \<^verbatim>\<open>RangeError\<close> on every host.
\<close>

theorem totality_counterexample:
  "snd (buildPlaneGeometry (2 ^ 53 - 1) (Some hugeConfig)) = Inl RangeError"
  by (rule huge_run)

text \<open>
  C8, as amended. For every configuration, also an absent one, with \<open>n\<close> the effective
  segment count: when the host allocates the arrays of the grid the function returns a
  geometry record, of primitive type \<^verbatim>\<open>"triangles"\<close>; otherwise it throws \<^verbatim>\<open>RangeError\<close>,
  and it throws nothing else.
\<close>

theorem total_when_allocations_fit:
  "(case snd (buildPlaneGeometry mem arg) of
      Inr g \<Rightarrow> allocationsFit mem (planeX (localsOf (cfgOrDefault arg)))
               \<and> primitiveType g = ''triangles''
    | Inl e \<Rightarrow> \<not> allocationsFit mem (planeX (localsOf (cfgOrDefault arg)))
               \<and> e = RangeError)"
proof -
  define p where "p = localsOf (cfgOrDefault arg)"
  have fit: "allocationsFit mem (planeX p)
               \<longleftrightarrow> \<not> (12 * vertexCount p > hostLimit mem \<or> indexBytes p > hostLimit mem)"
    unfolding p_def
    by (rule allocationsFit_iff [OF localsOf_planeX1 localsOf_planeZ1 localsOf_planeZ])
  show ?thesis
    unfolding p_def [symmetric] fit
    by (simp add: buildPlaneGeometry_eq generate_eq p_def [symmetric] geometryOf_def)
qed

theorem total_when_allocations_fit_witness:
  "snd (buildPlaneGeometry (2 ^ 53 - 1) (Some sampleConfig)) = Inr sampleGeometry
   \<and> allocationsFit (2 ^ 53 - 1) 2
   \<and> primitiveType sampleGeometry = ''triangles''"
proof -
  have r: "snd (buildPlaneGeometry (2 ^ 53 - 1) (Some sampleConfig)) = Inr sampleGeometry"
    using sample_run by simp
  have x: "planeX (localsOf (cfgOrDefault (Some sampleConfig))) = 2"
    by (simp add: sample_locals)
  show ?thesis
    using r total_when_allocations_fit [of "2 ^ 53 - 1" "Some sampleConfig"]
    unfolding r x by simp
qed

subsection \<open>Sizes\<close>

lemma msg_distinct:
  "msg_xSize \<noteq> msg_zSize" "msg_xSize \<noteq> msg_xSegments" "msg_xSize \<noteq> msg_zSegments"
  "msg_zSize \<noteq> msg_xSegments" "msg_zSize \<noteq> msg_zSegments" "msg_xSegments \<noteq> msg_zSegments"
  by (simp_all add: msg_xSize_def msg_zSize_def msg_xSegments_def msg_zSegments_def)

lemma set_consoleLog:
  "set (consoleLog cfg) =
     (if orElse (xSize cfg) 1 < 0 then {msg_xSize} else {}) \<union>
     (if orElse (zSize cfg) 1 < 0 then {msg_zSize} else {}) \<union>
     (if orElse (xSegments cfg) 1 < 0 then {msg_xSegments, msg_zSegments} else {})"
  by (auto simp: consoleLog_def read_xSize_def read_zSize_def read_xSegments_def
        read_zSegments_def invertNegative_def split: prod.splits if_splits)

lemma localsOf_cong:
  assumes "center c = center c'" and "snd (read_xSize c) = snd (read_xSize c')"
    and "snd (read_zSize c) = snd (read_zSize c')" and "xSegments c = xSegments c'"
  shows "localsOf c = localsOf c'"
  using assms by (simp add: localsOf_def read_xSegments_def read_zSegments_def)

text \<open>
  C5. A negative \<^verbatim>\<open>xSize\<close> gives the result of its absolute value, and the notice
  \<^verbatim>\<open>"negative xSize not allowed - will invert"\<close> is written to the console; likewise for
  \<^verbatim>\<open>zSize\<close>.
\<close>

theorem negative_size_inverted:
  assumes "v < 0"
  shows "snd (buildPlaneGeometry mem (Some (cfg\<lparr>xSize := Some v\<rparr>)))
           = snd (buildPlaneGeometry mem (Some (cfg\<lparr>xSize := Some \<bar>v\<bar>\<rparr>)))
       \<and> msg_xSize \<in> set (fst (buildPlaneGeometry mem (Some (cfg\<lparr>xSize := Some v\<rparr>))))
       \<and> snd (buildPlaneGeometry mem (Some (cfg\<lparr>zSize := Some v\<rparr>)))
           = snd (buildPlaneGeometry mem (Some (cfg\<lparr>zSize := Some \<bar>v\<bar>\<rparr>)))
       \<and> msg_zSize \<in> set (fst (buildPlaneGeometry mem (Some (cfg\<lparr>zSize := Some v\<rparr>))))"
proof -
  have inv: "snd (invertNegative m (orElse (Some v) 1)) = snd (invertNegative m (orElse (Some \<bar>v\<bar>) 1))"
    for m
    using assms by (simp add: orElse_def invertNegative_def)
  have "localsOf (cfg\<lparr>xSize := Some v\<rparr>) = localsOf (cfg\<lparr>xSize := Some \<bar>v\<bar>\<rparr>)"
    by (rule localsOf_cong) (simp_all add: read_xSize_def read_zSize_def inv)
  moreover have "localsOf (cfg\<lparr>zSize := Some v\<rparr>) = localsOf (cfg\<lparr>zSize := Some \<bar>v\<bar>\<rparr>)"
    by (rule localsOf_cong) (simp_all add: read_xSize_def read_zSize_def inv)
  moreover have "msg_xSize \<in> set (consoleLog (cfg\<lparr>xSize := Some v\<rparr>))"
    and "msg_zSize \<in> set (consoleLog (cfg\<lparr>zSize := Some v\<rparr>))"
    using assms by (simp_all add: set_consoleLog orElse_def)
  ultimately show ?thesis
    by (simp add: buildPlaneGeometry_eq cfgOrDefault_def)
qed

theorem negative_size_inverted_witness:
  "(- 2 :: rat) < 0
   \<and> snd (buildPlaneGeometry (2 ^ 53 - 1) (Some (sampleConfig\<lparr>xSize := Some (- 2)\<rparr>)))
       = snd (buildPlaneGeometry (2 ^ 53 - 1) (Some (sampleConfig\<lparr>xSize := Some 2\<rparr>)))
   \<and> msg_xSize \<in> set (fst (buildPlaneGeometry (2 ^ 53 - 1)
                                (Some (sampleConfig\<lparr>xSize := Some (- 2)\<rparr>))))
   \<and> snd (buildPlaneGeometry (2 ^ 53 - 1) (Some (sampleConfig\<lparr>zSize := Some (- 2)\<rparr>)))
       = snd (buildPlaneGeometry (2 ^ 53 - 1) (Some (sampleConfig\<lparr>zSize := Some 2\<rparr>)))
   \<and> msg_zSize \<in> set (fst (buildPlaneGeometry (2 ^ 53 - 1)
                                (Some (sampleConfig\<lparr>zSize := Some (- 2)\<rparr>))))"
proof -
  have h: "(- 2 :: rat) < 0" by simp
  show ?thesis
    using h negative_size_inverted [OF h, of "2 ^ 53 - 1" sampleConfig] by simp
qed

text \<open>
  C9. A size of 0 is treated as an absent one: the console output and the result are
  those of the configuration without the field, the size used is the default 1, and no
  notice about the size is written.
\<close>

theorem zero_size_is_absent:
  "buildPlaneGeometry mem (Some (cfg\<lparr>xSize := Some 0\<rparr>))
     = buildPlaneGeometry mem (Some (cfg\<lparr>xSize := None\<rparr>))
   \<and> read_xSize (cfg\<lparr>xSize := Some 0\<rparr>) = ([], 1)
   \<and> msg_xSize \<notin> set (fst (buildPlaneGeometry mem (Some (cfg\<lparr>xSize := Some 0\<rparr>))))
   \<and> buildPlaneGeometry mem (Some (cfg\<lparr>zSize := Some 0\<rparr>))
     = buildPlaneGeometry mem (Some (cfg\<lparr>zSize := None\<rparr>))
   \<and> read_zSize (cfg\<lparr>zSize := Some 0\<rparr>) = ([], 1)
   \<and> msg_zSize \<notin> set (fst (buildPlaneGeometry mem (Some (cfg\<lparr>zSize := Some 0\<rparr>))))"
proof -
  have "localsOf (cfg\<lparr>xSize := Some 0\<rparr>) = localsOf (cfg\<lparr>xSize := None\<rparr>)"
    by (rule localsOf_cong) (simp_all add: read_xSize_def read_zSize_def orElse_def)
  moreover have "localsOf (cfg\<lparr>zSize := Some 0\<rparr>) = localsOf (cfg\<lparr>zSize := None\<rparr>)"
    by (rule localsOf_cong) (simp_all add: read_xSize_def read_zSize_def orElse_def)
  moreover have "consoleLog (cfg\<lparr>xSize := Some 0\<rparr>) = consoleLog (cfg\<lparr>xSize := None\<rparr>)"
    and "consoleLog (cfg\<lparr>zSize := Some 0\<rparr>) = consoleLog (cfg\<lparr>zSize := None\<rparr>)"
    by (simp_all add: consoleLog_def read_xSize_def read_zSize_def read_xSegments_def
          read_zSegments_def orElse_def)
  moreover have "msg_xSize \<notin> set (consoleLog (cfg\<lparr>xSize := Some 0\<rparr>))"
    and "msg_zSize \<notin> set (consoleLog (cfg\<lparr>zSize := Some 0\<rparr>))"
    using msg_distinct by (auto simp: set_consoleLog orElse_def split: if_splits)
  moreover have "read_xSize (cfg\<lparr>xSize := Some 0\<rparr>) = ([], 1)"
    and "read_zSize (cfg\<lparr>zSize := Some 0\<rparr>) = ([], 1)"
    by (simp_all add: read_xSize_def read_zSize_def orElse_def invertNegative_def)
  ultimately show ?thesis
    by (simp add: buildPlaneGeometry_eq cfgOrDefault_def)
qed

theorem zero_size_is_absent_witness:
  "buildPlaneGeometry (2 ^ 53 - 1) (Some (sampleConfig\<lparr>xSize := Some 0\<rparr>))
     = buildPlaneGeometry (2 ^ 53 - 1) (Some (sampleConfig\<lparr>xSize := None\<rparr>))
   \<and> halfWidth (localsOf (sampleConfig\<lparr>xSize := Some 0\<rparr>)) = 1 / 2
   \<and> msg_xSize \<notin> set (fst (buildPlaneGeometry (2 ^ 53 - 1)
                                (Some (sampleConfig\<lparr>xSize := Some 0\<rparr>))))"
proof -
  have h: "halfWidth (localsOf (sampleConfig\<lparr>xSize := Some 0\<rparr>)) = 1 / 2"
    by (simp add: sampleConfig_def locals_eval)
  show ?thesis
    using h zero_size_is_absent [of "2 ^ 53 - 1" sampleConfig] by blast
qed

subsection \<open>The diagnostics of the segment counts\<close>

text \<open>
  C10. The notice about \<^verbatim>\<open>zSegments\<close> is written exactly when \<^verbatim>\<open>cfg.xSegments\<close> is
  negative. So a negative \<^verbatim>\<open>cfg.zSegments\<close>, with \<^verbatim>\<open>cfg.xSegments\<close> absent or not
  negative, writes no notice about a segment count and leaves console output and result
  as they are without it; and a negative \<^verbatim>\<open>cfg.xSegments\<close> writes the notice about
  \<^verbatim>\<open>xSegments\<close> and then the notice about \<^verbatim>\<open>zSegments\<close>.
\<close>

theorem zSegments_notice_tests_xSegments:
  "(v < 0 \<and> (xSegments cfg = None \<or> (\<exists>w. xSegments cfg = Some w \<and> 0 \<le> w)) \<longrightarrow>
      buildPlaneGeometry mem (Some (cfg\<lparr>zSegments := Some v\<rparr>))
        = buildPlaneGeometry mem (Some (cfg\<lparr>zSegments := None\<rparr>))
      \<and> msg_zSegments \<notin> set (fst (buildPlaneGeometry mem (Some (cfg\<lparr>zSegments := Some v\<rparr>))))
      \<and> msg_xSegments \<notin> set (fst (buildPlaneGeometry mem (Some (cfg\<lparr>zSegments := Some v\<rparr>)))))
   \<and> (xSegments cfg' = Some w' \<and> w' < 0 \<longrightarrow>
        fst (read_xSegments cfg') @ fst (read_zSegments cfg') = [msg_xSegments, msg_zSegments]
      \<and> msg_xSegments \<in> set (fst (buildPlaneGeometry mem' (Some cfg')))
      \<and> msg_zSegments \<in> set (fst (buildPlaneGeometry mem' (Some cfg'))))
   \<and> (msg_zSegments \<in> set (fst (buildPlaneGeometry mem'' (Some cfg'')))
        \<longleftrightarrow> (\<exists>w. xSegments cfg'' = Some w \<and> w < 0))"
proof -
  have same: "buildPlaneGeometry mem (Some (cfg\<lparr>zSegments := Some v\<rparr>))
                = buildPlaneGeometry mem (Some (cfg\<lparr>zSegments := None\<rparr>))"
    by (simp add: buildPlaneGeometry_eq cfgOrDefault_def localsOf_zSegments consoleLog_zSegments)
  have neg: "orElse (xSegments c) 1 < 0 \<longleftrightarrow> (\<exists>w. xSegments c = Some w \<and> w < 0)" for c
    by (cases "xSegments c") (auto simp: orElse_def)
  have zmsg: "msg_zSegments \<in> set (consoleLog c) \<longleftrightarrow> (\<exists>w. xSegments c = Some w \<and> w < 0)" for c
    using msg_distinct by (auto simp: set_consoleLog neg [symmetric] split: if_splits)
  have xmsg: "msg_xSegments \<in> set (consoleLog c) \<longleftrightarrow> (\<exists>w. xSegments c = Some w \<and> w < 0)" for c
    using msg_distinct by (auto simp: set_consoleLog neg [symmetric] split: if_splits)
  have quiet: "msg_zSegments \<notin> set (consoleLog (cfg\<lparr>zSegments := Some v\<rparr>))
             \<and> msg_xSegments \<notin> set (consoleLog (cfg\<lparr>zSegments := Some v\<rparr>))"
    if "xSegments cfg = None \<or> (\<exists>w. xSegments cfg = Some w \<and> 0 \<le> w)"
    using that unfolding zmsg xmsg by auto
  have both: "fst (read_xSegments cfg') @ fst (read_zSegments cfg') = [msg_xSegments, msg_zSegments]"
    if "xSegments cfg' = Some w'" and "w' < 0"
    using that by (simp add: read_xSegments_def read_zSegments_def invertNegative_def orElse_def)
  show ?thesis
    using same quiet both zmsg [of cfg'] xmsg [of cfg'] zmsg [of cfg'']
    by (simp add: buildPlaneGeometry_eq cfgOrDefault_def)
qed

theorem zSegments_notice_tests_xSegments_witness:
  "(- 3 :: rat) < 0
   \<and> xSegments sampleConfig = Some (5 / 2) \<and> (0 :: rat) \<le> 5 / 2
   \<and> buildPlaneGeometry (2 ^ 53 - 1) (Some (sampleConfig\<lparr>zSegments := Some (- 3)\<rparr>))
       = buildPlaneGeometry (2 ^ 53 - 1) (Some (sampleConfig\<lparr>zSegments := None\<rparr>))
   \<and> msg_zSegments \<notin> set (fst (buildPlaneGeometry (2 ^ 53 - 1)
                                   (Some (sampleConfig\<lparr>zSegments := Some (- 3)\<rparr>))))
   \<and> msg_xSegments \<notin> set (fst (buildPlaneGeometry (2 ^ 53 - 1)
                                   (Some (sampleConfig\<lparr>zSegments := Some (- 3)\<rparr>))))
   \<and> xSegments (sampleConfig\<lparr>xSegments := Some (- 3)\<rparr>) = Some (- 3)
   \<and> msg_xSegments \<in> set (fst (buildPlaneGeometry (2 ^ 53 - 1)
                                   (Some (sampleConfig\<lparr>xSegments := Some (- 3)\<rparr>))))
   \<and> msg_zSegments \<in> set (fst (buildPlaneGeometry (2 ^ 53 - 1)
                                   (Some (sampleConfig\<lparr>xSegments := Some (- 3)\<rparr>))))"
proof -
  define c1 where "c1 = sampleConfig"
  define c2 where "c2 = sampleConfig\<lparr>xSegments := Some (- 3)\<rparr>"
  have h1: "(- 3 :: rat) < 0" by simp
  have h2: "xSegments c1 = Some (5 / 2)" by (simp add: c1_def sampleConfig_def)
  have h3: "(0 :: rat) \<le> 5 / 2" by simp
  have h4: "xSegments c2 = Some (- 3)" by (simp add: c2_def)
  have a: "(- 3 :: rat) < 0 \<and> (xSegments c1 = None \<or> (\<exists>w. xSegments c1 = Some w \<and> 0 \<le> w))"
    using h1 h2 h3 by blast
  have b: "xSegments c2 = Some (- 3) \<and> (- 3 :: rat) < 0"
    using h1 h4 by blast
  note t = zSegments_notice_tests_xSegments [of "- 3" c1 "2 ^ 53 - 1" c2 "- 3" "2 ^ 53 - 1"
      "2 ^ 53 - 1" c2]
  have "buildPlaneGeometry (2 ^ 53 - 1) (Some (c1\<lparr>zSegments := Some (- 3)\<rparr>))
          = buildPlaneGeometry (2 ^ 53 - 1) (Some (c1\<lparr>zSegments := None\<rparr>))
      \<and> msg_zSegments \<notin> set (fst (buildPlaneGeometry (2 ^ 53 - 1)
                                      (Some (c1\<lparr>zSegments := Some (- 3)\<rparr>))))
      \<and> msg_xSegments \<notin> set (fst (buildPlaneGeometry (2 ^ 53 - 1)
                                      (Some (c1\<lparr>zSegments := Some (- 3)\<rparr>))))"
    using t a by blast
  moreover have "msg_xSegments \<in> set (fst (buildPlaneGeometry (2 ^ 53 - 1) (Some c2)))
      \<and> msg_zSegments \<in> set (fst (buildPlaneGeometry (2 ^ 53 - 1) (Some c2)))"
    using t b by blast
  ultimately show ?thesis
    using h1 h2 h3 h4 unfolding c1_def c2_def by blast
qed

end
